theory Spec2Isabelle
  imports Complex_Main "HOL-Library.Sublist" "HOL-Library.Char_ord" "HOL-Library.List_Lexorder"
begin

section \<open>Python strings\<close>

text \<open>
  A Python \<open>str\<close> is modelled as a \<open>string\<close> whose characters are the code points
  below 256 (ASCII and the Latin-1 supplement). On these, \<open>lower\<close> is \<open>str.lower\<close>: the
  ASCII capitals and the Latin-1 capitals U+00C0 to U+00DE (but not the sign U+00D7) move
  up by 32, every other character stays. \<open>contains sub s\<close> is \<open>sub in s\<close>, and
  \<open>replace s old new\<close> is \<open>s.replace(old, new)\<close>: every non-overlapping occurrence,
  scanning from the left.
\<close>

definition ascii_uppercase :: string where
  "ascii_uppercase = ''ABCDEFGHIJKLMNOPQRSTUVWXYZ''"

definition ascii_lowercase :: string where
  "ascii_lowercase = ''abcdefghijklmnopqrstuvwxyz''"

definition digits :: string where
  "digits = ''0123456789''"

definition latin1_upper :: "char \<Rightarrow> bool" where
  "latin1_upper c =
     ((192 \<le> (of_char c :: nat) \<and> (of_char c :: nat) \<le> 214) \<or>
      (216 \<le> (of_char c :: nat) \<and> (of_char c :: nat) \<le> 222))"

definition lower_char :: "char \<Rightarrow> char" where
  "lower_char c =
     (case map_of (zip ascii_uppercase ascii_lowercase) c of
        Some d \<Rightarrow> d
      | None \<Rightarrow> if latin1_upper c then char_of (of_char c + (32 :: nat)) else c)"

definition lower :: "string \<Rightarrow> string" where
  "lower s = map lower_char s"

fun contains :: "string \<Rightarrow> string \<Rightarrow> bool" where
  "contains sub [] = (sub = [])"
| "contains sub (c # cs) = (prefix sub (c # cs) \<or> contains sub cs)"

function replace :: "string \<Rightarrow> string \<Rightarrow> string \<Rightarrow> string" where
  "replace s old new =
     (if old = [] then new @ concat (map (\<lambda>c. c # new) s)
      else if s = [] then []
      else if prefix old s then new @ replace (drop (length old) s) old new
      else hd s # replace (tl s) old new)"
  by pat_completeness auto
termination
  by (relation "measure (\<lambda>(s, old, new). length s)") (auto simp: neq_Nil_conv)

declare replace.simps [simp del]

fun join :: "string \<Rightarrow> string list \<Rightarrow> string" where
  "join sep [] = []"
| "join sep [w] = w"
| "join sep (w # ws) = w @ sep @ join sep ws"

section \<open>Documents and the retriever\<close>

record Document =
  page_content :: string
  metadata :: "(string \<times> string) list"

datatype error =
    InvalidParameter
  | EmptyVocabulary
  | MaxDfBelowMinDf
  | NoTermsRemain
  | NotFitted
  | IncompatibleDimension
  | IndexError

text \<open>
  The vectorizer object: the two constructor arguments that are not literals in the source
  (\<open>max_features\<close>, and the word list that \<open>stop_words='english'\<close> names), and what a fit
  leaves behind: the vocabulary in feature order, each term with its idf weight
  (\<open>None\<close> before the first successful fit).
\<close>

record TfidfVectorizer =
  max_features :: nat
  stop_words :: "string list"
  fitted :: "(string \<times> real) list option"

record EmbeddingRetriever =
  vectorizer :: TfidfVectorizer
  embeddings :: "real list list option"
  documents :: "Document list"

definition init :: "string list \<Rightarrow> nat \<Rightarrow> EmbeddingRetriever" where
  "init english max_feats =
     \<lparr> vectorizer = \<lparr> max_features = max_feats, stop_words = english, fitted = None \<rparr>,
       embeddings = None,
       documents = [] \<rparr>"

section \<open>The vectorizer: tokens\<close>

text \<open>
  \<open>token_pattern=r'\b[A-Za-z]{2,}\b'\<close>, applied with \<open>findall\<close> to the lower-cased text.
  \<open>is_letter\<close> is the class \<open>[A-Za-z]\<close>. \<open>is_word_char\<close> is the class \<open>\w\<close> of a pattern on
  \<open>str\<close>, which is Unicode-aware: the ASCII letters, the digits, the underscore, and of
  the Latin-1 supplement the letters (U+00AA, U+00B5, U+00BA, U+00C0 to U+00FF without
  the signs U+00D7 and U+00F7) and the numeric characters (U+00B2, U+00B3, U+00B9, U+00BC
  to U+00BE). \<open>word_boundary p n\<close> is \<open>\b\<close> between the character before the position
  (\<open>None\<close> at the start) and the one after it (\<open>None\<close> at the end).
\<close>

definition is_letter :: "char \<Rightarrow> bool" where
  "is_letter c = (c \<in> set (ascii_uppercase @ ascii_lowercase))"

definition latin1_word :: "char \<Rightarrow> bool" where
  "latin1_word c =
     ((of_char c :: nat) \<in> set [170, 178, 179, 181, 185, 186, 188, 189, 190] \<or>
      (192 \<le> (of_char c :: nat) \<and> (of_char c :: nat) \<le> 214) \<or>
      (216 \<le> (of_char c :: nat) \<and> (of_char c :: nat) \<le> 246) \<or>
      248 \<le> (of_char c :: nat))"

definition is_word_char :: "char \<Rightarrow> bool" where
  "is_word_char c = (is_letter c \<or> c \<in> set digits \<or> c = CHR ''_'' \<or> latin1_word c)"

fun is_word :: "char option \<Rightarrow> bool" where
  "is_word None = False"
| "is_word (Some c) = is_word_char c"

definition word_boundary :: "char option \<Rightarrow> char option \<Rightarrow> bool" where
  "word_boundary p n = (is_word p \<noteq> is_word n)"

definition char_at :: "string \<Rightarrow> nat \<Rightarrow> char option" where
  "char_at s i = (if i < length s then Some (s ! i) else None)"

text \<open>
  \<open>[A-Za-z]{2,}\b\<close> at the head of \<open>s\<close>: the greedy quantifier takes the longest run of
  letters and gives characters back one at a time until \<open>\b\<close> holds after the match or
  fewer than two are left. \<open>backtrack s m\<close> tries the lengths \<open>m, m - 1, \<dots>, 2\<close>.
\<close>

fun backtrack :: "string \<Rightarrow> nat \<Rightarrow> nat option" where
  "backtrack s 0 = None"
| "backtrack s (Suc m) =
     (if Suc m < 2 then None
      else if word_boundary (char_at s m) (char_at s (Suc m)) then Some (Suc m)
      else backtrack s m)"

definition match_token :: "char option \<Rightarrow> string \<Rightarrow> nat option" where
  "match_token prev s =
     (if word_boundary prev (char_at s 0)
      then backtrack s (length (takeWhile is_letter s))
      else None)"

lemma backtrack_bounds: "backtrack s m = Some n \<Longrightarrow> 2 \<le> n \<and> n \<le> m"
  by (induction m) (auto split: if_splits)

lemma match_token_bounds: "match_token prev s = Some n \<Longrightarrow> 2 \<le> n \<and> n \<le> length s"
  unfolding match_token_def
  using backtrack_bounds [of s "length (takeWhile is_letter s)" n] length_takeWhile_le [of is_letter s]
  by (auto split: if_splits)

function findall :: "char option \<Rightarrow> string \<Rightarrow> string list" where
  "findall prev [] = []"
| "findall prev (c # cs) =
     (case match_token prev (c # cs) of
        Some n \<Rightarrow> take n (c # cs) # findall (char_at (c # cs) (n - 1)) (drop n (c # cs))
      | None \<Rightarrow> findall (Some c) cs)"
  by pat_completeness auto
termination
proof (relation "measure (\<lambda>(prev, s). length s)")
  show "wf (measure (\<lambda>(prev, s). length s))" by simp
next
  fix prev c cs n
  assume "match_token prev (c # cs) = Some n"
  then have "2 \<le> n" using match_token_bounds by blast
  then show "((char_at (c # cs) (n - 1), drop n (c # cs)), (prev, c # cs))
               \<in> measure (\<lambda>(prev, s). length s)"
    by simp
next
  fix prev c cs
  show "((Some c, cs), (prev, c # cs)) \<in> measure (\<lambda>(prev, s). length s)" by simp
qed

definition tokenize :: "string \<Rightarrow> string list" where
  "tokenize s = findall None (lower s)"

section \<open>The vectorizer: analysis, fit and transform\<close>

text \<open>
  The vectorizer is scikit-learn's \<open>TfidfVectorizer\<close>, and the similarity its
  \<open>cosine_similarity\<close>; the source fixes their configuration in \<open>__init__\<close>. What follows
  is the behaviour of the library for that configuration, with the errors it raises.

  The analyzer of the configuration in \<open>__init__\<close> (\<open>analyzer='word'\<close>, \<open>lowercase=True\<close>,
  \<open>stop_words='english'\<close>, \<open>ngram_range=(1, 3)\<close>): the tokens of the lower-cased text, the
  stop words removed, then all 1-grams, all 2-grams and all 3-grams of what is left, the
  words of an n-gram joined by one space.
\<close>

definition ngrams :: "nat \<Rightarrow> string list \<Rightarrow> string list" where
  "ngrams n ts = map (\<lambda>i. join '' '' (take n (drop i ts))) [0..<Suc (length ts) - n]"

definition word_ngrams :: "string list \<Rightarrow> string list \<Rightarrow> string list" where
  "word_ngrams stop tokens =
     (let original_tokens = filter (\<lambda>w. w \<notin> set stop) tokens
      in original_tokens @ ngrams 2 original_tokens @ ngrams 3 original_tokens)"

definition analyze :: "string list \<Rightarrow> string \<Rightarrow> string list" where
  "analyze stop doc = word_ngrams stop (tokenize doc)"

text \<open>
  Counting: the vocabulary is every term of every document, in sorted order (the
  features are sorted before they are limited, because \<open>max_features\<close> is given). An
  empty vocabulary is an error. The count matrix is kept as the analyzed documents: its
  entry for a document \<open>d\<close> and a term \<open>t\<close> is \<open>count_list d t\<close>.
\<close>

definition count_vocab :: "string list \<Rightarrow> string list \<Rightarrow> error + (string list \<times> string list list)" where
  "count_vocab stop raw_documents =
     (let docs = map (analyze stop) raw_documents;
          vocabulary = sort (remdups (concat docs))
      in if vocabulary = [] then Inl EmptyVocabulary else Inr (vocabulary, docs))"

definition document_frequency :: "string list list \<Rightarrow> string \<Rightarrow> nat" where
  "document_frequency docs t = length (filter (\<lambda>d. 0 < count_list d t) docs)"

definition term_frequency :: "string list list \<Rightarrow> string \<Rightarrow> nat" where
  "term_frequency docs t = sum_list (map (\<lambda>d. count_list d t) docs)"

text \<open>
  Pruning, with \<open>min_df=1\<close> and \<open>max_df=0.95\<close>: a term stays when it is in at least one
  document and in at most 95 percent of them (\<open>df \<le> 0.95 * n\<close>, written on naturals as
  \<open>20 * df \<le> 19 * n\<close>). When more than \<open>max_features\<close> terms are left, the ones with the
  largest total counts stay, in their sorted order. Among terms of equal count at the
  cut the library takes whichever its unstable sort puts first; the model takes the
  first in sorted order. The statements below hold for either choice: they use only that
  the same documents give the same vocabulary, and that a vocabulary is not empty. No
  term left is an error.
\<close>

definition limit_features :: "nat \<Rightarrow> string list list \<Rightarrow> string list \<Rightarrow> error + string list" where
  "limit_features limit docs vocabulary =
     (let n_doc = length docs;
          mask = filter (\<lambda>t. 20 * document_frequency docs t \<le> 19 * n_doc \<and>
                              1 \<le> document_frequency docs t) vocabulary;
          kept =
            (if limit < length mask
             then (let chosen = take limit (sort_key (\<lambda>t. - int (term_frequency docs t)) mask)
                   in filter (\<lambda>t. t \<in> set chosen) mask)
             else mask)
      in if kept = [] then Inl NoTermsRemain else Inr kept)"

text \<open>
  Weights, with \<open>sublinear_tf=True\<close>, the smoothed idf and the L2 norm: a count \<open>c > 0\<close>
  becomes \<open>ln c + 1\<close>, a term in \<open>d\<close> of \<open>n\<close> documents has idf \<open>ln ((1 + n) / (1 + d)) + 1\<close>,
  and each row is divided by its Euclidean norm (a row of zeros is left as it is).
  Weights are real numbers here; the program computes them in double precision.
\<close>

definition sublinear_tf :: "nat \<Rightarrow> real" where
  "sublinear_tf c = (if c = 0 then 0 else ln (real c) + 1)"

definition idf_weight :: "nat \<Rightarrow> nat \<Rightarrow> real" where
  "idf_weight n_doc d = ln ((1 + real n_doc) / (1 + real d)) + 1"

definition l2_norm :: "real list \<Rightarrow> real" where
  "l2_norm v = sqrt (sum_list (map (\<lambda>x. x * x) v))"

definition normalize :: "real list \<Rightarrow> real list" where
  "normalize v = (if l2_norm v = 0 then v else map (\<lambda>x. x / l2_norm v) v)"

definition tfidf_row :: "(string \<times> real) list \<Rightarrow> string list \<Rightarrow> real list" where
  "tfidf_row vocabulary d =
     normalize (map (\<lambda>t. sublinear_tf (count_list d (fst t)) * snd t) vocabulary)"

text \<open>
  \<open>fit_transform\<close>: the parameter check (\<open>max_features\<close> is a positive integer), the
  vocabulary, the check that \<open>max_df\<close> documents (\<open>0.95 * n\<close>) are not fewer than \<open>min_df\<close>
  (one), the pruning, the idf of every term kept, and one weighted row per document.
\<close>

definition fit_transform ::
  "TfidfVectorizer \<Rightarrow> string list \<Rightarrow> error + (TfidfVectorizer \<times> real list list)" where
  "fit_transform v raw_documents =
     (if max_features v = 0 then Inl InvalidParameter
      else case count_vocab (stop_words v) raw_documents of
        Inl e \<Rightarrow> Inl e
      | Inr vd \<Rightarrow>
          (let docs = snd vd in
           if 19 * length docs < 20 then Inl MaxDfBelowMinDf
           else case limit_features (max_features v) docs (fst vd) of
             Inl e \<Rightarrow> Inl e
           | Inr kept \<Rightarrow>
               (let vocabulary =
                      map (\<lambda>t. (t, idf_weight (length docs) (document_frequency docs t))) kept
                in Inr (v\<lparr>fitted := Some vocabulary\<rparr>, map (tfidf_row vocabulary) docs))))"

text \<open>
  \<open>transform\<close> of one text: its counts of the fitted vocabulary's terms (other terms
  count for nothing), weighted and normalized in the same way. The vectorizer is not
  changed.
\<close>

definition transform :: "TfidfVectorizer \<Rightarrow> string \<Rightarrow> error + real list" where
  "transform v raw_document =
     (case fitted v of
        None \<Rightarrow> Inl NotFitted
      | Some vocabulary \<Rightarrow> Inr (tfidf_row vocabulary (analyze (stop_words v) raw_document)))"

section \<open>Cosine similarity\<close>

text \<open>
  \<open>cosine_similarity(X, Y).flatten()\<close> for a one-row \<open>X\<close>: both arguments are normalized
  again, then the dot product of the row of \<open>X\<close> with every row of \<open>Y\<close>. Rows of another
  width than the query are an error. Weights and scores are real numbers here: the
  rounding of the program's 64-bit floats is not modelled, so the statements below say
  nothing about the last digits of a score.
\<close>

definition dot :: "real list \<Rightarrow> real list \<Rightarrow> real" where
  "dot x y = sum_list (map2 (*) x y)"

definition cosine_similarity :: "real list \<Rightarrow> real list list \<Rightarrow> error + real list" where
  "cosine_similarity x Y =
     (if list_all (\<lambda>y. length y = length x) Y
      then Inr (map (\<lambda>y. dot (normalize x) (normalize y)) Y)
      else Inl IncompatibleDimension)"

section \<open>The retriever\<close>

subsection \<open>add_documents\<close>

text \<open>
  The store is extended first, then the vectorizer is fitted: on the new texts alone
  when there is no matrix yet, on the texts of the whole store otherwise. An exception
  of the fit leaves the extended store behind; the result is the state after the call
  and the exception raised, if any.
\<close>

definition add_documents ::
  "EmbeddingRetriever \<Rightarrow> Document list \<Rightarrow> EmbeddingRetriever \<times> error option" where
  "add_documents self docs =
     (let texts = map page_content docs;
          self1 = self\<lparr>documents := documents self @ docs\<rparr>;
          fitted_on =
            (if embeddings self1 = None then texts
             else map page_content (documents self1))
      in case fit_transform (vectorizer self1) fitted_on of
           Inl e \<Rightarrow> (self1, Some e)
         | Inr vX \<Rightarrow> (self1\<lparr>vectorizer := fst vX, embeddings := Some (snd vX)\<rparr>, None))"

subsection \<open>The query expander\<close>

definition state_mapping :: "(string \<times> string) list" where
  "state_mapping =
     [(''colorado'', ''CO''), (''co'', ''CO''),
      (''california'', ''CA''), (''ca'', ''CA''),
      (''alabama'', ''AL''), (''al'', ''AL''),
      (''texas'', ''TX''), (''tx'', ''TX''),
      (''florida'', ''FL''), (''fl'', ''FL''),
      (''new york'', ''NY''), (''ny'', ''NY'')]"

definition health_mapping :: "(string \<times> string) list" where
  "health_mapping =
     [(''obesity'', ''OBESITY obesity obese overweight''),
      (''diabetes'', ''DIABETES diabetes diabetic''),
      (''heart disease'', ''CHD coronary heart disease''),
      (''stroke'', ''STROKE cerebrovascular''),
      (''depression'', ''MHLTH mental health depression''),
      (''asthma'', ''CASTHMA asthma respiratory'')]"

text \<open>One round of the first loop: \<open>if state_name in processed: processed = processed.replace(\<dots>)\<close>.\<close>

definition state_step :: "string \<Rightarrow> string \<times> string \<Rightarrow> string" where
  "state_step processed entry =
     (if contains (fst entry) processed
      then replace processed (fst entry) (snd entry @ '' '' @ fst entry)
      else processed)"

definition health_step :: "string \<Rightarrow> string \<times> string \<Rightarrow> string" where
  "health_step processed entry =
     (if contains (fst entry) processed
      then replace processed (fst entry) (snd entry)
      else processed)"

definition apply_state_mappings :: "string \<Rightarrow> string" where
  "apply_state_mappings processed = foldl state_step processed state_mapping"

definition apply_health_mappings :: "string \<Rightarrow> string" where
  "apply_health_mappings processed = foldl health_step processed health_mapping"

definition add_context_keywords :: "string \<Rightarrow> string" where
  "add_context_keywords processed =
     (let p1 = (if contains ''county'' processed
                then processed @ '' CountyName CountyFIPS'' else processed);
          p2 = (if contains ''state'' p1 then p1 @ '' StateAbbr StateName'' else p1);
          p3 = (if list_ex (\<lambda>word. contains word p2) [''data'', ''information'', ''statistics'']
                then p2 @ '' TotalPopulation Data_Value Measure'' else p2)
      in p3)"

definition enhance_query_for_retrieval :: "string \<Rightarrow> string" where
  "enhance_query_for_retrieval query =
     add_context_keywords (apply_health_mappings (apply_state_mappings (lower query)))"

subsection \<open>The context booster\<close>

definition states :: "string list" where
  "states = [''colorado'', ''california'', ''alabama'', ''texas'', ''florida'',
             ''co'', ''ca'', ''al'', ''tx'', ''fl'']"

definition health_terms :: "string list" where
  "health_terms = [''obesity'', ''diabetes'', ''heart'', ''stroke'', ''depression'', ''asthma'']"

definition location_terms :: "string list" where
  "location_terms = [''county'', ''state'', ''region'', ''area'']"

definition boost_factor :: "string \<Rightarrow> Document \<Rightarrow> real" where
  "boost_factor query_lower doc =
     (let doc_content = lower (page_content doc);
          b1 = foldl (\<lambda>b state.
                  if contains state query_lower \<and> contains state doc_content
                  then b * 1.5 else b) 1 states;
          b2 = foldl (\<lambda>b health.
                  if contains health query_lower \<and> contains health doc_content
                  then b * 1.3 else b) b1 health_terms;
          b3 = (if list_ex (\<lambda>loc. contains loc query_lower) location_terms \<and>
                   list_ex (\<lambda>loc. contains loc doc_content) location_terms
                then b2 * 1.2 else b2);
          b4 = (if contains ''county'' query_lower \<and> \<not> contains ''county'' doc_content
                then b3 * 0.7 else b3)
      in b4)"

text \<open>
  The loop \<open>for i, doc in enumerate(self.documents): \<dots> boosted[i] *= boost_factor\<close> on the
  copy \<open>boosted\<close> of the similarity vector. Writing past the end of the array raises.
\<close>

fun boost_loop :: "string \<Rightarrow> nat \<Rightarrow> Document list \<Rightarrow> real list \<Rightarrow> error + real list" where
  "boost_loop query_lower i [] boosted = Inr boosted"
| "boost_loop query_lower i (doc # docs) boosted =
     (if i < length boosted
      then boost_loop query_lower (Suc i) docs
             (boosted[i := boosted ! i * boost_factor query_lower doc])
      else Inl IndexError)"

definition apply_context_boost ::
  "EmbeddingRetriever \<Rightarrow> real list \<Rightarrow> string \<Rightarrow> error + real list" where
  "apply_context_boost self similarities query =
     boost_loop (lower query) 0 (documents self) similarities"

subsection \<open>retrieve\<close>

text \<open>
  \<open>argsort\<close> stands for NumPy's \<open>ndarray.argsort()\<close> with its default sort: the indices of
  the array in ascending order of their values. The default sort is not stable, so NumPy
  fixes no order among equal values. The function is therefore a parameter of
  \<open>retrieve\<close>, and \<open>is_argsort\<close> says what NumPy promises of it: a permutation of the
  indices that puts the values in ascending order. \<open>stable_argsort\<close> is one function that
  keeps the promise (equal values in index order); closed examples are evaluated with
  it. \<open>slice_from start xs\<close> is \<open>xs[start:]\<close>, so that \<open>[-k:]\<close> is \<open>slice_from (- k)\<close>.
\<close>

definition is_argsort :: "(real list \<Rightarrow> nat list) \<Rightarrow> bool" where
  "is_argsort argsort =
     (\<forall>xs. distinct (argsort xs) \<and> set (argsort xs) = {0..<length xs} \<and>
           sorted (map (\<lambda>i. xs ! i) (argsort xs)))"

definition stable_argsort :: "real list \<Rightarrow> nat list" where
  "stable_argsort xs = sort_key (\<lambda>i. xs ! i) [0..<length xs]"

definition slice_from :: "int \<Rightarrow> 'a list \<Rightarrow> 'a list" where
  "slice_from start xs =
     (if start < 0 then drop (nat (int (length xs) + start)) xs else drop (nat start) xs)"

definition top_indices :: "(real list \<Rightarrow> nat list) \<Rightarrow> real list \<Rightarrow> int \<Rightarrow> nat list" where
  "top_indices argsort boosted k = rev (slice_from (- k) (argsort boosted))"

definition collect_results ::
  "Document list \<Rightarrow> real list \<Rightarrow> nat list \<Rightarrow> (Document \<times> real) list" where
  "collect_results docs boosted idxs =
     map (\<lambda>idx. (docs ! idx, boosted ! idx))
       (filter (\<lambda>idx. idx < length docs \<and> 0 < boosted ! idx) idxs)"

text \<open>
  The first half of \<open>retrieve\<close>: the expanded query is transformed by the fitted
  vectorizer and compared with every row of the matrix. These are the raw scores, before
  boosting.
\<close>

definition raw_similarities ::
  "TfidfVectorizer \<Rightarrow> real list list \<Rightarrow> string \<Rightarrow> error + real list" where
  "raw_similarities v X query =
     (case transform v (enhance_query_for_retrieval query) of
        Inl e \<Rightarrow> Inl e
      | Inr query_embedding \<Rightarrow> cosine_similarity query_embedding X)"

text \<open>
  \<open>retrieve\<close> returns its result (or the exception it raises) together with the state of
  the retriever after the call.
\<close>

definition retrieve ::
  "(real list \<Rightarrow> nat list) \<Rightarrow> EmbeddingRetriever \<Rightarrow> string \<Rightarrow> int \<Rightarrow>
     (error + (Document \<times> real) list) \<times> EmbeddingRetriever" where
  "retrieve argsort self query k =
     (if documents self = [] \<or> embeddings self = None then (Inr [], self)
      else case raw_similarities (vectorizer self) (the (embeddings self)) query of
        Inl e \<Rightarrow> (Inl e, self)
      | Inr similarities \<Rightarrow>
          (case apply_context_boost self similarities query of
             Inl e \<Rightarrow> (Inl e, self)
           | Inr boosted \<Rightarrow>
               (Inr (collect_results (documents self) boosted (top_indices argsort boosted k)),
                self)))"

section \<open>Example inputs\<close>

text \<open>
  A few words of the English stop word list, three one-word documents (two of them with
  the same content), and the retriever after they have been added to a fresh one.
\<close>

definition english :: "string list" where
  "english = [''a'', ''an'', ''and'', ''in'', ''is'', ''of'', ''the'', ''what'']"

definition doc_a0 :: Document where
  "doc_a0 = \<lparr> page_content = ''apple'', metadata = [(''row_index'', ''0'')] \<rparr>"

definition doc_a1 :: Document where
  "doc_a1 = \<lparr> page_content = ''apple'', metadata = [(''row_index'', ''1'')] \<rparr>"

definition doc_b2 :: Document where
  "doc_b2 = \<lparr> page_content = ''banana'', metadata = [(''row_index'', ''2'')] \<rparr>"

definition fresh :: EmbeddingRetriever where
  "fresh = init english 5000"

definition fitted3 :: EmbeddingRetriever where
  "fitted3 = fst (add_documents fresh [doc_a0, doc_a1, doc_b2])"

definition after_failed_add :: EmbeddingRetriever where
  "after_failed_add = fst (add_documents fresh [doc_b2])"

definition misaligned :: EmbeddingRetriever where
  "misaligned = fst (add_documents after_failed_add [doc_a0, doc_a1, doc_b2])"








section \<open>Notions used in the statements\<close>

text \<open>
  \<open>fitted_on self docs\<close> is the list of texts that \<open>add_documents self docs\<close> hands to the
  vectorizer.
\<close>

definition fitted_on :: "EmbeddingRetriever \<Rightarrow> Document list \<Rightarrow> string list" where
  "fitted_on self docs =
     (if embeddings self = None then map page_content docs
      else map page_content (documents self @ docs))"




text \<open>
  For the tokenizer: \<open>runs P s\<close> are the maximal runs of characters of \<open>s\<close> that satisfy
  \<open>P\<close>, from left to right. \<open>spec_tokens\<close> is the tokenization in the words of the
  specification: the case-folded maximal runs of alphabetic characters of length at least
  two. \<open>indexable w\<close> holds for a run of at least two characters that are all in
  \<open>[A-Za-z]\<close>.
\<close>

function runs :: "(char \<Rightarrow> bool) \<Rightarrow> string \<Rightarrow> string list" where
  "runs P [] = []"
| "runs P (c # cs) =
     (if P c then takeWhile P (c # cs) # runs P (dropWhile P cs) else runs P cs)"
  by pat_completeness auto
termination
  by (relation "measure (\<lambda>(P, s). length s)") (auto simp: length_dropWhile_le less_Suc_eq_le)

definition spec_tokens :: "string \<Rightarrow> string list" where
  "spec_tokens s = filter (\<lambda>w. 2 \<le> length w) (runs is_letter (lower s))"

definition indexable :: "string \<Rightarrow> bool" where
  "indexable w = (2 \<le> length w \<and> list_all is_letter w)"

section \<open>Facts about the vectorizer\<close>

lemma idf_weight_ge_1:
  assumes "d \<le> n"
  shows "1 \<le> idf_weight n d"
proof -
  have "1 \<le> (1 + real n) / (1 + real d)" using assms by simp
  then have "0 \<le> ln ((1 + real n) / (1 + real d))" by simp
  then show ?thesis unfolding idf_weight_def by linarith
qed

lemma idf_weight_pos: "d \<le> n \<Longrightarrow> 0 < idf_weight n d"
  using idf_weight_ge_1 [of d n] by linarith

lemma normalize_unit_left: "0 < a \<Longrightarrow> normalize [a, 0] = [1, 0]"
  by (simp add: normalize_def l2_norm_def)

lemma normalize_unit_right: "0 < a \<Longrightarrow> normalize [0, a] = [0, 1]"
  by (simp add: normalize_def l2_norm_def)

lemma fit_transform_Inr:
  assumes "fit_transform v T = Inr (v', X)"
  shows "\<exists>vocabulary. v' = v\<lparr>fitted := Some vocabulary\<rparr> \<and>
           X = map (tfidf_row vocabulary) (map (analyze (stop_words v)) T)"
  using assms
  by (auto simp: fit_transform_def count_vocab_def Let_def split: if_splits sum.splits)

lemma fit_transform_rows:
  assumes "fit_transform v T = Inr (v', X)"
  shows "length X = length T"
  using fit_transform_Inr [OF assms] by auto

lemma fit_transform_refit:
  assumes "fit_transform v T = Inr (v', X)"
  shows "fit_transform v' T = Inr (v', X)"
proof -
  obtain vocabulary where v': "v' = v\<lparr>fitted := Some vocabulary\<rparr>"
    using fit_transform_Inr [OF assms] by blast
  show ?thesis
    using assms unfolding v' fit_transform_def
    by (auto simp: Let_def split: if_splits sum.splits)
qed

lemma add_documents_success:
  assumes "add_documents self docs = (self', None)"
  shows "\<exists>v X. fit_transform (vectorizer self) (fitted_on self docs) = Inr (v, X) \<and>
           self' = self\<lparr>documents := documents self @ docs, vectorizer := v, embeddings := Some X\<rparr>"
  using assms
  by (auto simp: add_documents_def fitted_on_def Let_def split: sum.splits if_splits)

section \<open>The example inputs, evaluated\<close>

lemma count_vocab_3:
  "count_vocab english [''apple'', ''apple'', ''banana''] =
     Inr ([''apple'', ''banana''], [ [''apple''], [''apple''], [''banana'']])"
  by code_simp

lemma limit_features_3:
  "limit_features 5000 [ [''apple''], [''apple''], [''banana'']] [''apple'', ''banana''] =
     Inr [''apple'', ''banana'']"
  by code_simp

lemma document_frequency_3:
  "document_frequency [ [''apple''], [''apple''], [''banana'']] ''apple'' = 2"
  "document_frequency [ [''apple''], [''apple''], [''banana'']] ''banana'' = 1"
  by code_simp+

lemma count_vocab_1: "count_vocab english [''banana''] = Inr ([''banana''], [ [''banana'']])"
  by code_simp

lemmas eval_add =
  add_documents_def fresh_def init_def fit_transform_def Let_def tfidf_row_def sublinear_tf_def
  doc_a0_def doc_a1_def doc_b2_def count_vocab_3 limit_features_3 document_frequency_3
  idf_weight_pos normalize_unit_left normalize_unit_right

lemma add_3_ok: "snd (add_documents fresh [doc_a0, doc_a1, doc_b2]) = None"
  by (simp add: eval_add)

lemma fitted3_documents: "documents fitted3 = [doc_a0, doc_a1, doc_b2]"
  by (simp add: fitted3_def eval_add)

lemma fitted3_embeddings: "embeddings fitted3 = Some [ [1, 0], [1, 0], [0, 1]]"
  by (simp add: fitted3_def eval_add)

lemma enhance_apple: "enhance_query_for_retrieval ''apple'' = ''apple''"
  by code_simp

lemma analyze_apple: "analyze english ''apple'' = [''apple'']"
  by code_simp

lemma fitted3_transform_apple: "transform (vectorizer fitted3) ''apple'' = Inr [1, 0]"
  by (simp add: transform_def fitted3_def eval_add analyze_apple)

lemma cosine_apple: "cosine_similarity [1, 0] [ [1, 0], [1, 0], [0, 1]] = Inr [1, 1, 0]"
  by (simp add: cosine_similarity_def dot_def normalize_def l2_norm_def)

lemma fitted3_raw_apple:
  "raw_similarities (vectorizer fitted3) [ [1, 0], [1, 0], [0, 1]] ''apple'' = Inr [1, 1, 0]"
  by (simp add: raw_similarities_def enhance_apple fitted3_transform_apple cosine_apple)

lemma lower_apple: "lower ''apple'' = ''apple''"
  by code_simp

lemma boost_factor_apple: "boost_factor ''apple'' d = 1"
  unfolding boost_factor_def Let_def states_def health_terms_def location_terms_def
  by simp

lemma fitted3_boost_apple: "apply_context_boost fitted3 [1, 1, 0] ''apple'' = Inr [1, 1, 0]"
  by (simp add: apply_context_boost_def lower_apple boost_factor_apple fitted3_documents)

lemma stable_argsort_110: "stable_argsort [1, 1, 0] = [2, 0, 1]"
  by (simp add: stable_argsort_def upt_rec [of 0] upt_rec [of 1] upt_rec [of 2])

lemma fitted3_retrieve_apple:
  "retrieve argsort fitted3 ''apple'' k =
     (Inr (collect_results [doc_a0, doc_a1, doc_b2] [1, 1, 0]
            (rev (slice_from (- k) (argsort [1, 1, 0])))),
      fitted3)"
  by (simp add: retrieve_def fitted3_documents fitted3_embeddings fitted3_raw_apple
      fitted3_boost_apple top_indices_def)

lemma after_failed_add_eq:
  "add_documents fresh [doc_b2] = (fresh\<lparr>documents := [doc_b2]\<rparr>, Some MaxDfBelowMinDf)"
  by (simp add: add_documents_def fresh_def init_def fit_transform_def doc_b2_def count_vocab_1)

lemma misaligned_transform_apple: "transform (vectorizer misaligned) ''apple'' = Inr [1, 0]"
  by (simp add: transform_def misaligned_def after_failed_add_def after_failed_add_eq,
      simp add: eval_add analyze_apple)

lemma misaligned_raw_apple:
  "raw_similarities (vectorizer misaligned) [ [1, 0], [1, 0], [0, 1]] ''apple'' = Inr [1, 1, 0]"
  by (simp add: raw_similarities_def enhance_apple misaligned_transform_apple cosine_apple)

lemma misaligned_state:
  "embeddings misaligned = Some [ [1, 0], [1, 0], [0, 1]]"
  "documents misaligned = [doc_b2, doc_a0, doc_a1, doc_b2]"
  by (simp_all add: misaligned_def after_failed_add_def after_failed_add_eq, simp_all add: eval_add)

section \<open>Empty index\<close>

text \<open>
  C6. For every query and every k, when the document store is empty or nothing has been
  vectorized yet, \<open>retrieve\<close> returns the empty sequence and raises nothing (and leaves
  the retriever as it was).
\<close>

theorem retrieve_empty_index:
  assumes "documents self = [] \<or> embeddings self = None"
  shows "retrieve argsort self query k = (Inr [], self)"
  using assms by (simp add: retrieve_def)

theorem retrieve_empty_index_witness:
  "documents fresh = [] \<and> embeddings fresh = None \<and>
   retrieve stable_argsort fresh ''anything'' 5 = (Inr [], fresh)"
  using retrieve_empty_index [of fresh stable_argsort "''anything''" 5]
  by (simp add: fresh_def init_def)

section \<open>Frame of retrieve\<close>

text \<open>
  C10. For every retriever state, every query and every k, \<open>retrieve\<close> leaves the
  retriever unchanged: the documents, the fitted vocabulary and the embedding matrix
  after the call are the ones before it, whether it returns a result or raises.
\<close>

theorem retrieve_state_unchanged:
  "snd (retrieve argsort self query k) = self"
  by (simp add: retrieve_def split: sum.split)

section \<open>Adding an empty document sequence\<close>

text \<open>
  C5 says that adding an empty document sequence never raises, in particular on a fresh
  retriever. On a fresh retriever the vectorizer is fitted on no text at all, finds no
  term and raises (\<open>ValueError: empty vocabulary\<close>); \<open>main\<close> calls \<open>add_documents\<close> only
  when the loader has returned documents.
\<close>

theorem add_empty_to_fresh_counterexample:
  "add_documents fresh [] = (fresh, Some EmptyVocabulary)"
  by (simp add: add_documents_def fresh_def init_def fit_transform_def count_vocab_def)

text \<open>
  C5, as amended. Adding an empty document sequence to a fresh retriever (one built with
  a positive \<open>max_features\<close>) raises the vectorizer's empty-vocabulary error and leaves
  the retriever as it was. Take a
  retriever in which the matrix is present or the store is empty (a fresh retriever is
  one), and an \<open>add_documents\<close> on it that succeeded: adding an empty document sequence to
  the retriever it left completes without an error and leaves that retriever as it was,
  since the refit of the same store gives the same vocabulary and the same matrix.
\<close>

theorem add_empty_documents:
  "(0 < max_feats \<longrightarrow>
      add_documents (init stop max_feats) [] = (init stop max_feats, Some EmptyVocabulary)) \<and>
   (add_documents self docs = (self', None) \<and>
    (embeddings self = None \<longrightarrow> documents self = []) \<longrightarrow>
      add_documents self' [] = (self', None))"
proof (intro conjI impI)
  assume "0 < max_feats"
  then show "add_documents (init stop max_feats) [] = (init stop max_feats, Some EmptyVocabulary)"
    by (simp add: add_documents_def init_def fit_transform_def count_vocab_def)
next
  assume a: "add_documents self docs = (self', None) \<and>
             (embeddings self = None \<longrightarrow> documents self = [])"
  then obtain v X where fit: "fit_transform (vectorizer self) (fitted_on self docs) = Inr (v, X)"
    and self': "self' = self\<lparr>documents := documents self @ docs, vectorizer := v,
                  embeddings := Some X\<rparr>"
    using add_documents_success by blast
  have on: "fitted_on self docs = map page_content (documents self @ docs)"
    using a by (auto simp: fitted_on_def)
  have "fit_transform v (map page_content (documents self @ docs)) = Inr (v, X)"
    using fit_transform_refit fit on by metis
  then show "add_documents self' [] = (self', None)"
    by (simp add: add_documents_def self')
qed

theorem add_empty_documents_witness:
  "add_documents fresh [] = (fresh, Some EmptyVocabulary) \<and>
   add_documents fresh [doc_a0, doc_a1, doc_b2] = (fitted3, None) \<and>
   embeddings fresh = None \<and> documents fresh = [] \<and>
   add_documents fitted3 [] = (fitted3, None)"
proof -
  have ok: "add_documents fresh [doc_a0, doc_a1, doc_b2] = (fitted3, None)"
    using add_3_ok by (simp add: fitted3_def prod_eq_iff)
  have fr: "embeddings fresh = None" "documents fresh = []"
    by (simp_all add: fresh_def init_def)
  show ?thesis
    using add_empty_documents [of 5000 english fresh "[doc_a0, doc_a1, doc_b2]" fitted3] ok fr
    by (simp add: fresh_def)
qed

section \<open>Alignment of the matrix with the store\<close>

text \<open>
  From a state in which a missing matrix means an empty store, a successful
  \<open>add_documents\<close> leaves a matrix with one row per stored document, fitted on the texts
  of the whole store.
\<close>

lemma add_documents_aligned:
  assumes "add_documents self docs = (self', None)"
    and "embeddings self = None \<longrightarrow> documents self = []"
  shows "\<exists>v X. fit_transform (vectorizer self) (map page_content (documents self')) = Inr (v, X) \<and>
           embeddings self' = Some X \<and> length X = length (documents self')"
proof -
  obtain v X where fit: "fit_transform (vectorizer self) (fitted_on self docs) = Inr (v, X)"
    and self': "self' = self\<lparr>documents := documents self @ docs, vectorizer := v,
                  embeddings := Some X\<rparr>"
    using add_documents_success [OF assms(1)] by blast
  have on: "fitted_on self docs = map page_content (documents self')"
    using assms(2) by (auto simp: fitted_on_def self')
  have "length X = length (documents self')"
    using fit_transform_rows [OF fit] on by simp
  then show ?thesis using fit on self' by simp
qed

text \<open>
  C9 says that after any fit the matrix has one row per stored document. The store is
  extended before the fit, and the fit can raise: on a fresh retriever a single document
  makes \<open>max_df\<close> (0.95 documents) fall below \<open>min_df\<close> (one document). The store then holds
  the document and there is still no matrix, so the next \<open>add_documents\<close> takes the
  first-time branch and fits on the new texts alone: three rows for four stored
  documents, and the next \<open>retrieve\<close> writes past the end of the score array.
\<close>

theorem misaligned_after_failed_first_add:
  "snd (add_documents fresh [doc_b2]) = Some MaxDfBelowMinDf \<and>
   embeddings after_failed_add = None \<and>
   documents after_failed_add = [doc_b2] \<and>
   snd (add_documents after_failed_add [doc_a0, doc_a1, doc_b2]) = None \<and>
   embeddings misaligned = Some [ [1, 0], [1, 0], [0, 1]] \<and>
   documents misaligned = [doc_b2, doc_a0, doc_a1, doc_b2] \<and>
   fst (retrieve argsort misaligned ''apple'' 5) = Inl IndexError"
proof -
  have a: "snd (add_documents fresh [doc_b2]) = Some MaxDfBelowMinDf"
    by (simp add: after_failed_add_eq)
  have b: "embeddings after_failed_add = None"
    by (simp add: after_failed_add_def after_failed_add_eq, simp add: fresh_def init_def)
  have c: "documents after_failed_add = [doc_b2]"
    by (simp add: after_failed_add_def after_failed_add_eq)
  have d: "snd (add_documents after_failed_add [doc_a0, doc_a1, doc_b2]) = None"
    by (simp add: after_failed_add_def after_failed_add_eq, simp add: eval_add)
  have e: "fst (retrieve argsort misaligned ''apple'' 5) = Inl IndexError"
    by (simp add: retrieve_def misaligned_state misaligned_raw_apple apply_context_boost_def
        lower_apple boost_factor_apple)
  show ?thesis
    using a b c d e misaligned_state by simp
qed

section \<open>The ranker\<close>

lemma is_argsort_stable: "is_argsort stable_argsort"
  by (simp add: is_argsort_def stable_argsort_def sorted_sort_key)

lemma length_argsort:
  assumes "is_argsort argsort"
  shows "length (argsort boosted) = length boosted"
proof -
  have "distinct (argsort boosted)" and "set (argsort boosted) = {0..<length boosted}"
    using assms by (simp_all add: is_argsort_def)
  then show ?thesis using distinct_card [of "argsort boosted"] by simp
qed

lemma top_indices_descending:
  assumes "is_argsort argsort"
  shows "sorted_wrt (\<lambda>i j. boosted ! j \<le> boosted ! i) (top_indices argsort boosted k)"
proof -
  have "sorted (map (\<lambda>i. boosted ! i) (argsort boosted))"
    using assms by (simp add: is_argsort_def)
  then have "sorted_wrt (\<lambda>i j. boosted ! i \<le> boosted ! j) (argsort boosted)"
    by (simp add: sorted_map)
  then show ?thesis
    unfolding top_indices_def slice_from_def
    by (simp add: sorted_wrt_rev sorted_wrt_drop)
qed

lemma distinct_top_indices:
  assumes "is_argsort argsort"
  shows "distinct (top_indices argsort boosted k)"
  using assms by (simp add: top_indices_def slice_from_def is_argsort_def)

lemma length_top_indices:
  assumes "is_argsort argsort" and "1 \<le> k"
  shows "int (length (top_indices argsort boosted k)) \<le> k"
  using assms(2) by (simp add: top_indices_def slice_from_def length_argsort [OF assms(1)])

lemma collect_results_sorted:
  assumes "sorted_wrt (\<lambda>i j. boosted ! j \<le> boosted ! i) idxs"
  shows "sorted_wrt (\<lambda>r r'. snd r' \<le> snd r) (collect_results docs boosted idxs)"
proof -
  have "sorted_wrt (\<lambda>i j. boosted ! j \<le> boosted ! i)
          (filter (\<lambda>idx. idx < length docs \<and> 0 < boosted ! idx) idxs)"
    using assms by (rule sorted_wrt_filter)
  then show ?thesis by (simp add: collect_results_def sorted_wrt_map)
qed

lemma collect_results_positive: "list_all (\<lambda>r. 0 < snd r) (collect_results docs boosted idxs)"
  by (simp add: collect_results_def list_all_iff)

lemma length_collect_results: "length (collect_results docs boosted idxs) \<le> length idxs"
  by (simp add: collect_results_def)

lemma retrieve_Inr:
  assumes "retrieve argsort self query k = (Inr results, self')"
  shows "results = [] \<or>
         (\<exists>similarities boosted.
            raw_similarities (vectorizer self) (the (embeddings self)) query = Inr similarities \<and>
            apply_context_boost self similarities query = Inr boosted \<and>
            results = collect_results (documents self) boosted (top_indices argsort boosted k))"
  using assms by (auto simp: retrieve_def split: if_splits sum.splits)

text \<open>
  With \<open>k = 0\<close> the slice \<open>[-k:]\<close> is \<open>[0:]\<close>, the whole array, whatever order \<open>argsort\<close>
  gives to equal values: on the fitted example retriever both documents that match the
  query \<open>apple\<close> come back.
\<close>

lemma fitted3_apple_all:
  assumes "is_argsort argsort"
  shows "map snd (collect_results [doc_a0, doc_a1, doc_b2] [1, 1, 0] (rev (argsort [1, 1, 0])))
           = [1, 1]"
proof -
  let ?xs = "argsort [1, 1, 0 :: real]"
  have d: "distinct ?xs"
    using assms by (simp add: is_argsort_def)
  have s: "set ?xs = {0..<length [1, 1, 0 :: real]}"
    using assms unfolding is_argsort_def by blast
  have o: "sorted (map (\<lambda>i. [1, 1, 0 :: real] ! i) ?xs)"
    using assms unfolding is_argsort_def by blast
  have "length ?xs = Suc (Suc (Suc 0))"
    using length_argsort [OF assms, of "[1, 1, 0]"] by simp
  then obtain a b c where xs: "?xs = [a, b, c]"
    by (auto simp: length_Suc_conv)
  have abc: "a \<noteq> b" "a \<noteq> c" "b \<noteq> c"
    using d unfolding xs by auto
  have "a \<in> set ?xs" "b \<in> set ?xs" "c \<in> set ?xs"
    unfolding xs by simp_all
  then have "a < Suc (Suc (Suc 0))" "b < Suc (Suc (Suc 0))" "c < Suc (Suc (Suc 0))"
    unfolding s by simp_all
  then have mem: "a = 0 \<or> a = Suc 0 \<or> a = Suc (Suc 0)" "b = 0 \<or> b = Suc 0 \<or> b = Suc (Suc 0)"
    "c = 0 \<or> c = Suc 0 \<or> c = Suc (Suc 0)"
    by (auto simp: less_Suc_eq)
  have ord: "[1, 1, 0 :: real] ! a \<le> [1, 1, 0] ! b" "[1, 1, 0 :: real] ! b \<le> [1, 1, 0] ! c"
    using o unfolding xs by simp_all
  have "(a = Suc (Suc 0) \<and> b = 0 \<and> c = Suc 0) \<or> (a = Suc (Suc 0) \<and> b = Suc 0 \<and> c = 0)"
    using mem abc ord by auto
  then show ?thesis
    unfolding xs by (auto simp: collect_results_def)
qed

text \<open>
  C1 says that at most k pairs are returned for every requested count k, and that equal
  scores come out in store order. For \<open>k = 0\<close> the fitted example retriever returns two
  pairs, both with score 1. And nothing orders equal scores: they come out in the
  reverse of the order in which \<open>argsort\<close> returns them, and NumPy's default sort, which
  is not stable, fixes none.
\<close>

theorem retrieve_more_than_k_counterexample:
  "\<not> isl (fst (retrieve stable_argsort fitted3 ''apple'' 0)) \<and>
   map snd (projr (fst (retrieve stable_argsort fitted3 ''apple'' 0))) = [1, 1]"
  using fitted3_apple_all [OF is_argsort_stable]
  by (simp add: fitted3_retrieve_apple slice_from_def)

text \<open>
  C1, as amended. For every retriever state, every query and every k, the pairs that
  \<open>retrieve\<close> returns are in descending order of their boosted scores, every score is
  above 0, and for \<open>k \<ge> 1\<close> there are at most k pairs. The returned pairs are documents
  of the store, each at most once, with their boosted scores. No order among equal
  scores is promised. This holds for every \<open>argsort\<close> that keeps NumPy's promise.
\<close>

theorem retrieve_ranking:
  assumes "is_argsort argsort" and "retrieve argsort self query k = (Inr results, self')"
  shows "sorted_wrt (\<lambda>r r'. snd r' \<le> snd r) results \<and>
         list_all (\<lambda>r. 0 < snd r) results \<and>
         (1 \<le> k \<longrightarrow> int (length results) \<le> k) \<and>
         (results = [] \<or>
          (\<exists>similarities boosted idxs.
             raw_similarities (vectorizer self) (the (embeddings self)) query = Inr similarities \<and>
             apply_context_boost self similarities query = Inr boosted \<and>
             results = map (\<lambda>i. (documents self ! i, boosted ! i)) idxs \<and>
             list_all (\<lambda>i. i < length (documents self)) idxs \<and>
             distinct idxs))"
proof -
  consider "results = []"
    | similarities boosted where
        "raw_similarities (vectorizer self) (the (embeddings self)) query = Inr similarities"
        "apply_context_boost self similarities query = Inr boosted"
        "results = collect_results (documents self) boosted (top_indices argsort boosted k)"
    using retrieve_Inr [OF assms(2)] by blast
  then show ?thesis
  proof cases
    case 1
    then show ?thesis by simp
  next
    case 2
    let ?idxs = "filter (\<lambda>idx. idx < length (documents self) \<and> 0 < boosted ! idx)
                   (top_indices argsort boosted k)"
    have a: "sorted_wrt (\<lambda>r r'. snd r' \<le> snd r) results"
      unfolding 2(3) by (rule collect_results_sorted) (rule top_indices_descending [OF assms(1)])
    have b: "list_all (\<lambda>r. 0 < snd r) results"
      unfolding 2(3) by (rule collect_results_positive)
    have c: "1 \<le> k \<longrightarrow> int (length results) \<le> k"
    proof
      assume "1 \<le> k"
      then have "int (length (top_indices argsort boosted k)) \<le> k"
        using assms(1) by (intro length_top_indices)
      moreover have "length results \<le> length (top_indices argsort boosted k)"
        unfolding 2(3) by (rule length_collect_results)
      ultimately show "int (length results) \<le> k" by linarith
    qed
    have "results = map (\<lambda>i. (documents self ! i, boosted ! i)) ?idxs"
      unfolding 2(3) by (simp add: collect_results_def)
    moreover have "distinct ?idxs"
      using distinct_top_indices [OF assms(1)] by simp
    moreover have "list_all (\<lambda>i. i < length (documents self)) ?idxs"
      by (simp add: list_all_iff)
    ultimately have d: "\<exists>similarities boosted idxs.
             raw_similarities (vectorizer self) (the (embeddings self)) query = Inr similarities \<and>
             apply_context_boost self similarities query = Inr boosted \<and>
             results = map (\<lambda>i. (documents self ! i, boosted ! i)) idxs \<and>
             list_all (\<lambda>i. i < length (documents self)) idxs \<and>
             distinct idxs"
      using 2(1,2) by blast
    show ?thesis using a b c d by blast
  qed
qed

theorem retrieve_ranking_witness:
  "is_argsort stable_argsort \<and>
   retrieve stable_argsort fitted3 ''apple'' 2 = (Inr [(doc_a1, 1), (doc_a0, 1)], fitted3) \<and>
   sorted_wrt (\<lambda>r r'. snd r' \<le> snd r) [(doc_a1, 1::real), (doc_a0, 1)] \<and>
   list_all (\<lambda>r. 0 < snd r) [(doc_a1, 1::real), (doc_a0, 1)] \<and>
   int (length [(doc_a1, 1::real), (doc_a0, 1)]) \<le> 2"
proof -
  have r: "retrieve stable_argsort fitted3 ''apple'' 2 = (Inr [(doc_a1, 1), (doc_a0, 1)], fitted3)"
    by (simp add: fitted3_retrieve_apple stable_argsort_110 slice_from_def collect_results_def)
  show ?thesis using retrieve_ranking [OF is_argsort_stable r] r is_argsort_stable by simp
qed

text \<open>
  C2 says that \<open>retrieve\<close> never returns more than k pairs, for every integer k. The cut
  is the slice \<open>[-k:]\<close>, and for \<open>k = 0\<close> that is \<open>[0:]\<close>, the whole array: whatever
  \<open>argsort\<close> returns is used in full, and the fitted example retriever returns both
  matching documents when none is asked for.
\<close>

theorem retrieve_k_zero_returns_all:
  "fst (retrieve argsort fitted3 ''apple'' 0) =
     Inr (collect_results [doc_a0, doc_a1, doc_b2] [1, 1, 0] (rev (argsort [1, 1, 0]))) \<and>
   fst (retrieve stable_argsort fitted3 ''apple'' 0) = Inr [(doc_a1, 1), (doc_a0, 1)]"
  by (simp add: fitted3_retrieve_apple stable_argsort_110 slice_from_def collect_results_def)

section \<open>The context booster\<close>



























section \<open>The query expander\<close>


















section \<open>The tokenizer\<close>

lemma letter_is_word: "is_letter c \<Longrightarrow> is_word_char c"
  by (simp add: is_word_char_def)

lemma char_at_letters:
  assumes "m < length (takeWhile is_letter s)"
  shows "char_at s m = Some (s ! m) \<and> is_letter (s ! m)"
proof -
  have "m < length s"
    using assms length_takeWhile_le [of is_letter s] by linarith
  moreover have "is_letter (s ! m)"
    using assms by (metis nth_mem set_takeWhileD takeWhile_nth)
  ultimately show ?thesis by (simp add: char_at_def)
qed

lemma backtrack_letters:
  assumes "m \<le> length (takeWhile is_letter s)"
  shows "backtrack s m =
     (if 2 \<le> m \<and> m = length (takeWhile is_letter s) \<and> \<not> is_word (char_at s m)
      then Some m else None)"
  using assms
proof (induction m)
  case 0
  then show ?case by simp
next
  case (Suc m)
  have prev: "is_word (char_at s m)"
    using char_at_letters [of m s] Suc.prems by (simp add: letter_is_word)
  show ?case
  proof (cases "Suc m < length (takeWhile is_letter s)")
    case True
    then have "is_word (char_at s (Suc m))"
      using char_at_letters [of "Suc m" s] by (simp add: letter_is_word)
    then show ?thesis using prev True Suc.IH by (simp add: word_boundary_def)
  next
    case False
    then have eq: "length (takeWhile is_letter s) = Suc m" using Suc.prems by simp
    have "backtrack s m = None" using Suc.IH eq by simp
    then show ?thesis using prev by (simp add: word_boundary_def eq)
  qed
qed


lemma char_at_simps [simp]:
  "char_at [] k = None"
  "char_at (c # cs) 0 = Some c"
  "char_at (c # cs) (Suc k) = char_at cs k"
  by (simp_all add: char_at_def)

lemma word_run_ends: "\<not> is_word (char_at s (length (takeWhile is_word_char s)))"
  by (induction s) simp_all

lemma letters_are_word_run:
  assumes "\<not> is_word (char_at s (length (takeWhile is_letter s)))"
  shows "takeWhile is_word_char s = takeWhile is_letter s"
  using assms by (induction s) (auto simp: letter_is_word split: if_splits)

lemma word_run_of_letters:
  assumes "list_all is_letter (takeWhile is_word_char s)"
  shows "takeWhile is_letter s = takeWhile is_word_char s"
  using assms by (induction s) (auto simp: letter_is_word)

lemma indexable_word_run:
  "indexable (takeWhile is_word_char s) \<longleftrightarrow>
     2 \<le> length (takeWhile is_letter s) \<and> \<not> is_word (char_at s (length (takeWhile is_letter s)))"
proof
  assume "indexable (takeWhile is_word_char s)"
  then have len: "2 \<le> length (takeWhile is_word_char s)"
    and eq: "takeWhile is_letter s = takeWhile is_word_char s"
    using word_run_of_letters by (auto simp: indexable_def)
  show "2 \<le> length (takeWhile is_letter s) \<and>
        \<not> is_word (char_at s (length (takeWhile is_letter s)))"
    using len word_run_ends [of s] by (simp add: eq)
next
  assume a: "2 \<le> length (takeWhile is_letter s) \<and>
             \<not> is_word (char_at s (length (takeWhile is_letter s)))"
  then have eq: "takeWhile is_word_char s = takeWhile is_letter s"
    using letters_are_word_run by blast
  have "list_all is_letter (takeWhile is_letter s)"
    by (simp add: list_all_iff) (metis set_takeWhileD)
  then show "indexable (takeWhile is_word_char s)"
    using a by (simp add: indexable_def eq)
qed

lemma match_token_word_run:
  "match_token prev s =
     (if \<not> is_word prev \<and> is_word (char_at s 0) \<and> indexable (takeWhile is_word_char s)
      then Some (length (takeWhile is_word_char s)) else None)"
proof (cases "\<not> is_word prev \<and> is_word (char_at s 0)")
  case True
  have "backtrack s (length (takeWhile is_letter s)) =
          (if 2 \<le> length (takeWhile is_letter s) \<and>
              \<not> is_word (char_at s (length (takeWhile is_letter s)))
           then Some (length (takeWhile is_letter s)) else None)"
    using backtrack_letters [of "length (takeWhile is_letter s)" s] by simp
  then have bt: "backtrack s (length (takeWhile is_letter s)) =
          (if indexable (takeWhile is_word_char s)
           then Some (length (takeWhile is_letter s)) else None)"
    by (simp only: indexable_word_run)
  have m: "match_token prev s = backtrack s (length (takeWhile is_letter s))"
    using True by (simp add: match_token_def word_boundary_def)
  show ?thesis
  proof (cases "indexable (takeWhile is_word_char s)")
    case good: True
    then have "takeWhile is_letter s = takeWhile is_word_char s"
      using word_run_of_letters by (simp add: indexable_def)
    then show ?thesis using m bt good True by simp
  next
    case False
    then show ?thesis using m bt by simp
  qed
next
  case False
  show ?thesis
  proof (cases "word_boundary prev (char_at s 0)")
    case True
    then have "\<not> is_word (char_at s 0)" using False by (auto simp: word_boundary_def)
    then have "takeWhile is_letter s = []"
      by (cases s) (auto simp: letter_is_word)
    then show ?thesis using False by (auto simp: match_token_def)
  next
    case False
    then show ?thesis by (auto simp: match_token_def word_boundary_def)
  qed
qed

lemma findall_word_runs:
  "findall prev s =
     (if is_word prev then filter indexable (runs is_word_char (dropWhile is_word_char s))
      else filter indexable (runs is_word_char s))"
proof (induction prev s rule: findall.induct)
  case (1 prev)
  then show ?case by simp
next
  case (2 prev c cs)
  let ?s = "c # cs"
  let ?R = "takeWhile is_word_char ?s"
  show ?case
  proof (cases "match_token prev ?s")
    case None
    then have skip: "findall prev ?s = findall (Some c) cs" by simp
    have ih: "findall (Some c) cs =
       (if is_word_char c then filter indexable (runs is_word_char (dropWhile is_word_char cs))
        else filter indexable (runs is_word_char cs))"
      using "2.IH"(1) [OF None] by simp
    show ?thesis
    proof (cases "is_word_char c")
      case False
      then show ?thesis using skip ih by simp
    next
      case True
      show ?thesis
      proof (cases "is_word prev")
        case True
        then show ?thesis using skip ih \<open>is_word_char c\<close> by simp
      next
        case False
        then have "\<not> indexable ?R"
          using None \<open>is_word_char c\<close> by (simp add: match_token_word_run split: if_splits)
        then show ?thesis using skip ih \<open>is_word_char c\<close> False by simp
      qed
    qed
  next
    case (Some n)
    then have prev: "\<not> is_word prev" and c: "is_word_char c" and good: "indexable ?R"
      and n: "n = length ?R"
      by (auto simp: match_token_word_run split: if_splits)
    have n2: "2 \<le> n" using good n by (simp add: indexable_def)
    have take: "take n ?s = ?R"
      unfolding n by (metis append_eq_conv_conj takeWhile_dropWhile_id)
    have drop: "drop n ?s = dropWhile is_word_char ?s"
      unfolding n by (metis append_eq_conv_conj takeWhile_dropWhile_id)
    have "n - 1 < length ?R" using n n2 by simp
    then have "?s ! (n - 1) \<in> set ?R \<and> n - 1 < length ?s"
      by (metis length_takeWhile_le less_le_trans nth_mem takeWhile_nth)
    then have last_word: "is_word (char_at ?s (n - 1))"
      by (auto simp: char_at_def dest: set_takeWhileD)
    have "findall (char_at ?s (n - 1)) (drop n ?s) =
            filter indexable (runs is_word_char (dropWhile is_word_char (drop n ?s)))"
      using "2.IH"(2) [OF Some] last_word by simp
    also have "dropWhile is_word_char (drop n ?s) = dropWhile is_word_char cs"
      using c by (simp add: drop)
    finally have rest: "findall (char_at ?s (n - 1)) (drop n ?s) =
            filter indexable (runs is_word_char (dropWhile is_word_char cs))" .
    have "findall prev ?s = take n ?s # findall (char_at ?s (n - 1)) (drop n ?s)"
      using Some by simp
    then show ?thesis
      using rest take good c prev by simp
  qed
qed

text \<open>
  C4 says that the tokens are exactly the case-folded maximal runs of alphabetic
  characters of length at least two, and that numbers and punctuation never keep an
  adjacent run from being tokenized. The pattern is \<open>\b[A-Za-z]{2,}\b\<close>, and there is no
  word boundary between a letter and a digit or an underscore: \<open>abc\<close> in \<open>abc123\<close> is
  not a token, and neither half of the column name \<open>Data_Value\<close> is.
\<close>

theorem letters_next_to_digits_counterexample:
  "tokenize ''abc123 de'' = [''de''] \<and>
   spec_tokens ''abc123 de'' = [''abc'', ''de''] \<and>
   tokenize ''TotalPopulation Data_Value Measure'' = [''totalpopulation'', ''measure''] \<and>
   spec_tokens ''TotalPopulation Data_Value Measure'' =
     [''totalpopulation'', ''data'', ''value'', ''measure'']"
  by code_simp

text \<open>
  C4, as amended. For every input string, the tokens are exactly the lower-cased maximal
  runs of word characters (the class \<open>\w\<close>: letters, digits and the underscore) that
  consist of the letters a to z only and have length at least two, in their order in the
  text. Punctuation and white space separate runs; a run of these letters next to a
  digit, an underscore or another letter (an accented one) is part of a longer run of
  word characters and gives no token.
\<close>

theorem tokenize_word_runs:
  "tokenize s = filter indexable (runs is_word_char (lower s))"
  by (simp add: tokenize_def findall_word_runs)

theorem tokenize_word_runs_witness:
  "tokenize ''State: CO | Data_Value: 31.2'' =
     filter indexable (runs is_word_char (lower ''State: CO | Data_Value: 31.2'')) \<and>
   tokenize ''State: CO | Data_Value: 31.2'' = [''state'', ''co''] \<and>
   tokenize (''Caf'' @ [CHR 0xC9] @ '' au lait'') =
     filter indexable (runs is_word_char (lower (''Caf'' @ [CHR 0xC9] @ '' au lait''))) \<and>
   tokenize (''Caf'' @ [CHR 0xC9] @ '' au lait'') = [''au'', ''lait'']"
proof -
  have v: "tokenize ''State: CO | Data_Value: 31.2'' = [''state'', ''co'']"
    by code_simp
  have w: "tokenize (''Caf'' @ [CHR 0xC9] @ '' au lait'') = [''au'', ''lait'']"
    by code_simp
  show ?thesis
    using tokenize_word_runs [of "''State: CO | Data_Value: 31.2''"]
      tokenize_word_runs [of "''Caf'' @ [CHR 0xC9] @ '' au lait''"] v w
    by simp
qed

end
